theory Spec2Isabelle
  imports Complex_Main
begin

section \<open>The Helius RPC proxy worker (\<open>src/index.ts\<close>)\<close>

text \<open>
  The worker exports one handler, \<open>fetch\<close>, and one helper, \<open>handleRequest\<close>.
  Both are embedded below as HOL functions. Conventions of the embedding:
  \<^item> A JavaScript string is a \<open>string\<close>; its characters are code units below 256.
  \<^item> A JavaScript number is \<open>NaN\<close> or an integer. Counts, limits and millisecond
    timestamps are integers of magnitude below \<open>2 ^ 53\<close>, where IEEE doubles,
    their quotients rounded down, and their decimal renderings are exact; larger
    magnitudes are outside the embedding.
  \<^item> An environment variable that is not set is \<open>None\<close> (\<open>undefined\<close> in the worker).
  \<^item> \<open>Date.now()\<close> is the argument \<open>now\<close>, in milliseconds.
  \<^item> The key-value namespace is a map from keys to stored strings; every access is
    also recorded in a list of effects, as is the reading of the request body.
  \<^item> The upstream service is not called by the embedding: the handler returns the
    outbound request it would issue, and \<open>deliver\<close> completes it for a given upstream.
  \<^item> \<open>new Request(url, ...)\<close> and \<open>fetch(url, ...)\<close> parse the URL text they are given.
    The embedding parses it as far as the host: a request is issued to the host the
    parser reads, and a URL that does not parse makes the handler throw. Hosts whose
    reading needs more of the URL standard than is embedded here are marked
    \<open>Uncovered\<close>, and nothing is stated about them. Other failures of the platform
    (the store, the network, a method that the constructor refuses) are not embedded.
\<close>

subsection \<open>JavaScript primitives used by the worker\<close>

datatype jsnum = NaN | Num int

text \<open>Truthiness of a string or \<open>null\<close>/\<open>undefined\<close>.\<close>

fun truthy :: "string option \<Rightarrow> bool" where
  "truthy None = False"
| "truthy (Some s) = (s \<noteq> [])"

text \<open>\<open>x || d\<close> for a string-valued \<open>x\<close>.\<close>

fun or_else :: "string option \<Rightarrow> string \<Rightarrow> string" where
  "or_else None d = d"
| "or_else (Some s) d = (if s = [] then d else s)"

text \<open>\<open>x || d\<close> for a numeric \<open>x\<close>: \<open>NaN\<close> and zero are falsy.\<close>

fun or_num :: "jsnum \<Rightarrow> int \<Rightarrow> int" where
  "or_num NaN d = d"
| "or_num (Num n) d = (if n = 0 then d else n)"

text \<open>\<open>String.prototype.split(',')\<close>: the pieces between the commas, never an empty list.\<close>

fun split_comma :: "string \<Rightarrow> string list" where
  "split_comma [] = [[]]"
| "split_comma (c # cs) =
     (if c = CHR '','' then [] # split_comma cs
      else (case split_comma cs of
              [] \<Rightarrow> [[c]]
            | p # ps \<Rightarrow> (c # p) # ps))"

text \<open>White space skipped by \<open>parseInt\<close>: TAB, LF, VT, FF, CR, SP and NBSP.\<close>

definition is_ws :: "char \<Rightarrow> bool" where
  "is_ws c = ((of_char c :: nat) \<in> {9, 10, 11, 12, 13, 32, 160})"

text \<open>The value of a digit character: \<open>0-9\<close>, \<open>a-z\<close>, \<open>A-Z\<close>.\<close>

definition digit_of :: "char \<Rightarrow> nat option" where
  "digit_of c =
     (let n = (of_char c :: nat) in
      if 48 \<le> n \<and> n \<le> 57 then Some (n - 48)
      else if 97 \<le> n \<and> n \<le> 122 then Some (n - 87)
      else if 65 \<le> n \<and> n \<le> 90 then Some (n - 55)
      else None)"

definition digit_in :: "nat \<Rightarrow> char \<Rightarrow> bool" where
  "digit_in radix c = (case digit_of c of None \<Rightarrow> False | Some d \<Rightarrow> d < radix)"

text \<open>The value of a run of digits, most significant first.\<close>

definition digits_value :: "nat \<Rightarrow> string \<Rightarrow> nat" where
  "digits_value radix ds = foldl (\<lambda>a c. a * radix + the (digit_of c)) 0 ds"

text \<open>
  \<open>parseInt(s)\<close> with no radix argument: skip white space, read a sign, switch to
  radix 16 after \<open>0x\<close> or \<open>0X\<close>, read the longest run of digits, ignore the rest;
  \<open>NaN\<close> when the run is empty.
\<close>

definition parseInt :: "string \<Rightarrow> jsnum" where
  "parseInt s =
     (let s1 = dropWhile is_ws s;
          neg = (case s1 of [] \<Rightarrow> False | c # _ \<Rightarrow> c = CHR ''-'');
          s2 = (case s1 of [] \<Rightarrow> [] | c # r \<Rightarrow> if c = CHR ''-'' \<or> c = CHR ''+'' then r else s1);
          hex = (take 2 s2 = ''0x'' \<or> take 2 s2 = ''0X'');
          radix = (if hex then 16 else 10);
          s3 = (if hex then drop 2 s2 else s2);
          ds = takeWhile (digit_in radix) s3
      in if ds = [] then NaN
         else Num ((if neg then - 1 else 1) * int (digits_value radix ds)))"

text \<open>\<open>parseInt\<close> of an environment variable: \<open>undefined\<close> is first turned into a string.\<close>

fun parseInt_env :: "string option \<Rightarrow> jsnum" where
  "parseInt_env None = parseInt ''undefined''"
| "parseInt_env (Some s) = parseInt s"

text \<open>Decimal rendering of an integer (\<open>Number.prototype.toString\<close>, template literals).\<close>

definition digit_char :: "nat \<Rightarrow> char" where
  "digit_char d = ''0123456789'' ! d"

fun digits10 :: "nat \<Rightarrow> string" where
  "digits10 n =
     (if n < 10 then [digit_char n]
      else digits10 (n div 10) @ [digit_char (n mod 10)])"

definition show_int :: "int \<Rightarrow> string" where
  "show_int i = (if i < 0 then CHR ''-'' # digits10 (nat (- i)) else digits10 (nat i))"

fun toString :: "jsnum \<Rightarrow> string" where
  "toString NaN = ''NaN''"
| "toString (Num i) = show_int i"

text \<open>\<open>count >= max\<close> and \<open>count += 1\<close> on a possibly-\<open>NaN\<close> count.\<close>

fun num_ge :: "jsnum \<Rightarrow> int \<Rightarrow> bool" where
  "num_ge NaN m = False"
| "num_ge (Num c) m = (m \<le> c)"

fun num_succ :: "jsnum \<Rightarrow> jsnum" where
  "num_succ NaN = NaN"
| "num_succ (Num c) = Num (c + 1)"

subsection \<open>Requests, responses, environment\<close>

type_synonym headers = "string \<rightharpoonup> string"

text \<open>
  The inbound \<open>Request\<close>. The three URL fields are what \<open>new URL(request.url)\<close>
  yields: \<open>pathname\<close> begins with a slash, \<open>search\<close> is empty or begins with a
  question mark, \<open>searchParams\<close> lists the decoded query parameters in order.
  \<open>Headers.get\<close> is the application of \<open>req_headers\<close> to the header's name.
  \<open>req_body\<close> is \<open>None\<close> for a request without a body, as every \<open>GET\<close> and \<open>HEAD\<close>
  request is.
\<close>

record request =
  req_method :: string
  pathname :: string
  search :: string
  searchParams :: "(string \<times> string) list"
  req_headers :: headers
  req_body :: "string option"

record response =
  status :: nat
  res_headers :: headers
  res_body :: "string option"

text \<open>
  The request handed to the global \<open>fetch\<close>, with its URL parsed: the host, and
  the path and query that follow it as they are written in the URL text.
\<close>

record out_request =
  out_host :: string
  out_target :: string
  out_method :: string
  out_headers :: headers
  out_body :: "string option"

text \<open>\<open>interface Env\<close>; the namespace \<open>RATE_LIMIT_NAMESPACE\<close> is passed separately.\<close>

record env =
  CORS_ALLOW_ORIGIN :: "string option"
  HELIUS_API_KEY :: string
  RATE_LIMIT_MAX_REQUESTS :: "string option"
  RATE_LIMIT_TIME_WINDOW :: "string option"
  WHITELISTED_IPS :: "string option"

type_synonym kv = "string \<rightharpoonup> string"

datatype effect =
    KV_get string
  | KV_put string string nat
  | Read_text

text \<open>
  What the handler returns: a response it built itself, the upstream's own response
  to a forwarded request (the upgrade path), or the upstream's response relayed
  under the given headers (the regular path). \<open>Throws\<close> is the exception raised
  when the outbound URL does not parse; \<open>Unmodelled\<close> stands for an outbound URL
  that the embedding does not read.
\<close>

datatype outcome =
    Respond response
  | Passthrough out_request
  | Proxy out_request headers
  | Throws
  | Unmodelled

record reply =
  outcome :: outcome
  store :: kv
  effects :: "effect list"

subsection \<open>Origin patterns (lines 23 to 32)\<close>

text \<open>\<open>domain.replace(/\./g, '\\.')\<close>: a backslash before every dot.\<close>

definition escape_dots :: "string \<Rightarrow> string" where
  "escape_dots domain =
     concat (map (\<lambda>c. if c = CHR ''.'' then [CHR 0x5C, CHR ''.''] else [c]) domain)"

definition seg_class :: string where
  "seg_class = ''[a-zA-Z0-9-]+''"

text \<open>\<open>.replace(/\*/g, '[a-zA-Z0-9-]+')\<close>.\<close>

definition replace_stars :: "string \<Rightarrow> string" where
  "replace_stars s = concat (map (\<lambda>c. if c = CHR ''*'' then seg_class else [c]) s)"

definition domainPattern :: "string \<Rightarrow> string" where
  "domainPattern domain = replace_stars (escape_dots domain)"

text \<open>
  The regular expressions the embedding reads: a sequence of literal characters,
  escaped dots and the class \<open>[a-zA-Z0-9-]+\<close>. Any other use of a character that is
  special in a JavaScript pattern is outside the embedding (\<open>None\<close>): there the
  worker may throw a syntax error or match by rules not modelled here.
\<close>

datatype atom = Lit char | Seg

definition is_meta :: "char \<Rightarrow> bool" where
  "is_meta c = (c \<in> set (CHR 0x5C # ''^$.*+?()[]{}|''))"

function parse_atoms :: "string \<Rightarrow> atom list option" where
  "parse_atoms [] = Some []"
| "parse_atoms (c # cs) =
     (if c = CHR 0x5C then
        (case cs of
           [] \<Rightarrow> None
         | d # ds \<Rightarrow> if d = CHR ''.'' then map_option (Cons (Lit d)) (parse_atoms ds) else None)
      else if take 13 (c # cs) = seg_class then map_option (Cons Seg) (parse_atoms (drop 12 cs))
      else if is_meta c then None
      else map_option (Cons (Lit c)) (parse_atoms cs))"
  by pat_completeness auto
termination
  by (relation "measure length") auto

text \<open>The characters of the class \<open>[a-zA-Z0-9-]\<close>.\<close>

definition seg_char :: "char \<Rightarrow> bool" where
  "seg_char c =
     (let n = (of_char c :: nat) in
      (97 \<le> n \<and> n \<le> 122) \<or> (65 \<le> n \<and> n \<le> 90) \<or> (48 \<le> n \<and> n \<le> 57) \<or> c = CHR ''-'')"

text \<open>
  Whether the whole string is matched: the pattern is wrapped in \<open>^\<close> and \<open>$\<close> and
  has no flags, so the match is anchored at both ends and case-sensitive.
\<close>

fun full_match :: "atom list \<Rightarrow> string \<Rightarrow> bool" where
  "full_match [] s = (s = [])"
| "full_match (Lit c # as) [] = False"
| "full_match (Lit c # as) (d # s) = (c = d \<and> full_match as s)"
| "full_match (Seg # as) [] = False"
| "full_match (Seg # as) (d # s) = (seg_char d \<and> (full_match (Seg # as) s \<or> full_match as s))"

text \<open>\<open>new RegExp(`^${domainPattern}$`).test(origin)\<close>.\<close>

definition regex_test :: "string \<Rightarrow> string \<Rightarrow> bool option" where
  "regex_test domain origin =
     map_option (\<lambda>as. full_match as origin) (parse_atoms (domainPattern domain))"

text \<open>\<open>supportedDomains.some(...)\<close>: patterns are tried in order up to the first match.\<close>

fun some_domain :: "string list \<Rightarrow> string \<Rightarrow> bool option" where
  "some_domain [] origin = Some False"
| "some_domain (domain # rest) origin =
     (case regex_test domain origin of
        None \<Rightarrow> None
      | Some True \<Rightarrow> Some True
      | Some False \<Rightarrow> some_domain rest origin)"

subsection \<open>CORS headers (lines 13 to 40)\<close>

definition corsBase :: headers where
  "corsBase =
     [''Access-Control-Allow-Methods'' \<mapsto> ''GET, HEAD, POST, PUT, OPTIONS'',
      ''Access-Control-Allow-Headers'' \<mapsto> ''*'']"

definition corsHeaders :: "env \<Rightarrow> request \<Rightarrow> headers option" where
  "corsHeaders env request =
     (if truthy (CORS_ALLOW_ORIGIN env) then
        (let supportedDomains = split_comma (or_else (CORS_ALLOW_ORIGIN env) []);
             origin = req_headers request ''Origin''
         in if truthy origin then
              (case some_domain supportedDomains (or_else origin []) of
                 None \<Rightarrow> None
               | Some isWhitelisted \<Rightarrow>
                   Some (if isWhitelisted
                         then corsBase(''Access-Control-Allow-Origin'' \<mapsto> or_else origin [])
                         else corsBase))
            else Some corsBase)
      else Some (corsBase(''Access-Control-Allow-Origin'' \<mapsto> ''*'')))"

subsection \<open>Parsing an outbound URL\<close>

text \<open>
  The result of an operation of the platform that may throw. \<open>Uncovered\<close> marks an
  input that the embedding does not read.
\<close>

datatype 'a attempt = Done 'a | TypeError | Uncovered

text \<open>
  The URL parser, for the texts the worker builds: \<open>https://\<close>, then any further
  slashes (which the parser skips), then the authority up to the first \<open>/\<close>, \<open>?\<close>,
  \<open>#\<close> or backslash, then the rest. An empty authority is a failure.
\<close>

definition is_slash :: "char \<Rightarrow> bool" where
  "is_slash c = (c = CHR ''/'' \<or> c = CHR 0x5C)"

definition ends_authority :: "char \<Rightarrow> bool" where
  "ends_authority c = (c = CHR ''/'' \<or> c = CHR ''?'' \<or> c = CHR ''#'' \<or> c = CHR 0x5C)"

text \<open>
  Characters that give the authority more structure than a plain ASCII domain:
  credentials (\<open>@\<close>), port (\<open>:\<close>), address literals (brackets), percent-encoding,
  tab and newline (removed by the parser), and non-ASCII characters.
\<close>

definition uncovered_char :: "char \<Rightarrow> bool" where
  "uncovered_char c =
     (c \<in> set (''@:[]%'' @ [CHR 0x09, CHR 0x0A, CHR 0x0D]) \<or> 128 \<le> (of_char c :: nat))"

text \<open>The other characters that a domain must not contain: controls, space, \<open><>^|\<close>, DEL.\<close>

definition forbidden_char :: "char \<Rightarrow> bool" where
  "forbidden_char c =
     ((of_char c :: nat) < 32 \<or> c \<in> set '' <>^|'' \<or> (of_char c :: nat) = 127)"

definition to_lower :: "char \<Rightarrow> char" where
  "to_lower c =
     (case map_of (zip ''ABCDEFGHIJKLMNOPQRSTUVWXYZ'' ''abcdefghijklmnopqrstuvwxyz'') c of
        None \<Rightarrow> c
      | Some l \<Rightarrow> l)"

text \<open>The pieces of a string between occurrences of a separator.\<close>

fun split_on :: "char \<Rightarrow> string \<Rightarrow> string list" where
  "split_on d [] = [[]]"
| "split_on d (c # cs) =
     (if c = d then [] # split_on d cs
      else (case split_on d cs of
              [] \<Rightarrow> [[c]]
            | p # ps \<Rightarrow> (c # p) # ps))"

text \<open>A label that starts with \<open>xn--\<close> in any case is decoded by the parser.\<close>

definition xn_label :: "string \<Rightarrow> bool" where
  "xn_label l = (map to_lower (take 4 l) = ''xn--'')"

text \<open>
  A last label that starts with a digit may make the host a numeric address
  (one empty label at the very end is not counted).
\<close>

definition numeric_tail :: "string list \<Rightarrow> bool" where
  "numeric_tail labels =
     (let parts = (if 1 < length labels \<and> last labels = [] then butlast labels else labels)
      in case parts of
           [] \<Rightarrow> False
         | _ # _ \<Rightarrow> (case last parts of [] \<Rightarrow> False | c # _ \<Rightarrow> digit_in 10 c))"

text \<open>
  The host that the parser reads from an authority. For an ASCII domain without
  \<open>xn--\<close> labels that is the domain in lower case.
\<close>

definition host_of :: "string \<Rightarrow> string attempt" where
  "host_of authority =
     (if authority = [] then TypeError
      else if \<exists>c \<in> set authority. uncovered_char c then Uncovered
      else if \<exists>c \<in> set authority. forbidden_char c then TypeError
      else (let labels = split_on (CHR ''.'') authority
            in if (\<exists>l \<in> set labels. xn_label l) \<or> numeric_tail labels then Uncovered
               else Done (map to_lower authority)))"

definition parse_url :: "string \<Rightarrow> (string \<times> string) attempt" where
  "parse_url url =
     (if take 8 url = ''https://'' then
        (let after = dropWhile is_slash (drop 8 url);
             authority = takeWhile (\<lambda>c. \<not> ends_authority c) after;
             target = dropWhile (\<lambda>c. \<not> ends_authority c) after
         in case host_of authority of
              Done host \<Rightarrow> Done (host, target)
            | TypeError \<Rightarrow> TypeError
            | Uncovered \<Rightarrow> Uncovered)
      else Uncovered)"

subsection \<open>\<open>handleRequest\<close> (lines 83 to 110)\<close>

text \<open>\<open>searchParams.get('cluster') || 'mainnet'\<close>; \<open>get\<close> returns the first value.\<close>

definition cluster :: "request \<Rightarrow> string" where
  "cluster request = or_else (map_of (searchParams request) ''cluster'') ''mainnet''"

text \<open>The template literal of line 90.\<close>

definition upgradeUrl :: "request \<Rightarrow> env \<Rightarrow> string" where
  "upgradeUrl request env =
     ''https://'' @ cluster request @ ''.helius-rpc.com/?api-key='' @ HELIUS_API_KEY env"

text \<open>The template literal of line 95.\<close>

definition proxyUrl :: "request \<Rightarrow> env \<Rightarrow> string" where
  "proxyUrl request env =
     ''https://''
     @ (if pathname request = ''/'' then cluster request @ ''.helius-rpc.com'' else ''api.helius.xyz'')
     @ pathname request @ ''?api-key='' @ HELIUS_API_KEY env
     @ (if search request \<noteq> [] then ''&'' @ drop 1 (search request) else [])"

text \<open>\<open>new Request(url, { method, body: payload || null, headers })\<close>.\<close>

definition proxyRequest :: "request \<Rightarrow> env \<Rightarrow> out_request attempt" where
  "proxyRequest request env =
     (let payload = (case req_body request of None \<Rightarrow> [] | Some text \<Rightarrow> text)
      in case parse_url (proxyUrl request env) of
           Done (host, target) \<Rightarrow>
             Done \<lparr> out_host = host, out_target = target,
                    out_method = req_method request,
                    out_headers = [''Content-Type'' \<mapsto> ''application/json'',
                                   ''X-Helius-Cloudflare-Proxy'' \<mapsto> ''true''],
                    out_body = (if payload = [] then None else Some payload) \<rparr>
         | TypeError \<Rightarrow> TypeError
         | Uncovered \<Rightarrow> Uncovered)"

text \<open>The request that \<open>fetch(url, request)\<close> issues: the original one under the new URL.\<close>

definition upgradeRequest :: "request \<Rightarrow> env \<Rightarrow> out_request attempt" where
  "upgradeRequest request env =
     (case parse_url (upgradeUrl request env) of
        Done (host, target) \<Rightarrow>
          Done \<lparr> out_host = host, out_target = target,
                 out_method = req_method request,
                 out_headers = req_headers request,
                 out_body = req_body request \<rparr>
      | TypeError \<Rightarrow> TypeError
      | Uncovered \<Rightarrow> Uncovered)"

definition handleRequest :: "request \<Rightarrow> env \<Rightarrow> headers \<Rightarrow> outcome \<times> effect list" where
  "handleRequest request env cors =
     (let upgradeHeader = req_headers request ''Upgrade''
      in if truthy upgradeHeader \<or> upgradeHeader = Some ''websocket''
         then ((case upgradeRequest request env of
                  Done q \<Rightarrow> Passthrough q
                | TypeError \<Rightarrow> Throws
                | Uncovered \<Rightarrow> Unmodelled), [])
         else ((case proxyRequest request env of
                  Done q \<Rightarrow> Proxy q cors
                | TypeError \<Rightarrow> Throws
                | Uncovered \<Rightarrow> Unmodelled), [Read_text]))"


subsection \<open>\<open>fetch\<close> (lines 11 to 80)\<close>

definition clientIdentifier :: "request \<Rightarrow> string" where
  "clientIdentifier request = or_else (req_headers request ''CF-Connecting-IP'') ''unknown''"

definition whitelistedIps :: "env \<Rightarrow> string list" where
  "whitelistedIps env =
     (if truthy (WHITELISTED_IPS env) then split_comma (or_else (WHITELISTED_IPS env) []) else [])"

definition rate_limit_max :: "env \<Rightarrow> int" where
  "rate_limit_max env = or_num (parseInt_env (RATE_LIMIT_MAX_REQUESTS env)) 50"

definition rate_limit_window :: "env \<Rightarrow> int" where
  "rate_limit_window env = or_num (parseInt_env (RATE_LIMIT_TIME_WINDOW env)) 1"

text \<open>\<open>Math.floor(Date.now() / (RATE_LIMIT_TIME_WINDOW * 1000))\<close>.\<close>

definition currentTime :: "env \<Rightarrow> int \<Rightarrow> int" where
  "currentTime env now = now div (rate_limit_window env * 1000)"

definition windowKey :: "env \<Rightarrow> int \<Rightarrow> request \<Rightarrow> string" where
  "windowKey env now request = clientIdentifier request @ '':'' @ show_int (currentTime env now)"

text \<open>\<open>requestCount ? parseInt(requestCount) : 0\<close>.\<close>

definition stored_count :: "kv \<Rightarrow> string \<Rightarrow> jsnum" where
  "stored_count ns key =
     (let requestCount = ns key
      in if truthy requestCount then parseInt (or_else requestCount []) else Num 0)"

definition rate_limited :: "headers \<Rightarrow> response" where
  "rate_limited cors =
     \<lparr> status = 429, res_headers = cors, res_body = Some ''Rate limit exceeded'' \<rparr>"

definition fetch :: "env \<Rightarrow> kv \<Rightarrow> int \<Rightarrow> request \<Rightarrow> reply option" where
  "fetch env ns now request =
     (case corsHeaders env request of
        None \<Rightarrow> None
      | Some cors \<Rightarrow> Some
         (if req_method request = ''OPTIONS'' then
            \<lparr> outcome = Respond \<lparr> status = 200, res_headers = cors, res_body = None \<rparr>,
              store = ns, effects = [] \<rparr>
          else if clientIdentifier request \<in> set (whitelistedIps env) then
            \<lparr> outcome = fst (handleRequest request env cors),
              store = ns, effects = snd (handleRequest request env cors) \<rparr>
          else
            (let key = windowKey env now request;
                 count = stored_count ns key
             in if num_ge count (rate_limit_max env) then
                  \<lparr> outcome = Respond (rate_limited cors),
                    store = ns, effects = [KV_get key] \<rparr>
                else
                  (let written = toString (num_succ count)
                   in \<lparr> outcome = fst (handleRequest request env cors),
                        store = ns(key \<mapsto> written),
                        effects = [KV_get key, KV_put key written 60]
                                  @ snd (handleRequest request env cors) \<rparr>))))"

text \<open>A run of the worker over successive requests, each at its own time.\<close>

fun serve :: "env \<Rightarrow> kv \<Rightarrow> (int \<times> request) list \<Rightarrow> reply list option" where
  "serve env ns [] = Some []"
| "serve env ns ((now, request) # rest) =
     (case fetch env ns now request of
        None \<Rightarrow> None
      | Some r \<Rightarrow> map_option (Cons r) (serve env (store r) rest))"

subsection \<open>Notions used in the statements\<close>





text \<open>
  A character that stands for itself in an origin pattern: a dot, or any character
  that is not special in a regular expression. A pattern character is one of
  these or the wildcard.
\<close>

definition literal_char :: "char \<Rightarrow> bool" where
  "literal_char c = (c = CHR ''.'' \<or> \<not> is_meta c)"

definition pattern_char :: "char \<Rightarrow> bool" where
  "pattern_char c = (c = CHR ''*'' \<or> literal_char c)"

definition atom_of :: "char \<Rightarrow> atom" where
  "atom_of c = (if c = CHR ''*'' then Seg else Lit c)"

text \<open>
  Matching as the specification words it: the origin is the pattern with every
  \<open>*\<close> replaced by a non-empty run of letters, digits and hyphens, and nothing
  before or after. \<open>fill\<close> puts the runs in the places of the wildcards.
\<close>

fun fill :: "string \<Rightarrow> string list \<Rightarrow> string" where
  "fill [] segs = []"
| "fill (c # p) segs =
     (if c = CHR ''*''
      then (case segs of [] \<Rightarrow> fill p [] | s # rest \<Rightarrow> s @ fill p rest)
      else c # fill p segs)"

definition stars :: "string \<Rightarrow> nat" where
  "stars p = length (filter (\<lambda>c. c = CHR ''*'') p)"

definition wildcard_match :: "string \<Rightarrow> string \<Rightarrow> bool" where
  "wildcard_match p origin =
     (\<exists>segs. length segs = stars p
             \<and> (\<forall>s \<in> set segs. s \<noteq> [] \<and> list_all seg_char s)
             \<and> origin = fill p segs)"

text \<open>The worker's own rate-limit rejection, as opposed to any upstream answer.\<close>

definition rejected :: "outcome \<Rightarrow> bool" where
  "rejected oc =
     (case oc of
        Respond r \<Rightarrow> status r = 429 \<and> res_body r = Some ''Rate limit exceeded''
      | Passthrough q \<Rightarrow> False
      | Proxy q cors \<Rightarrow> False
      | Throws \<Rightarrow> False
      | Unmodelled \<Rightarrow> False)"

definition touches_store :: "effect \<Rightarrow> bool" where
  "touches_store e = (case e of KV_get k \<Rightarrow> True | KV_put k v ttl \<Rightarrow> True | Read_text \<Rightarrow> False)"


subsection \<open>The counter store with expiry\<close>

text \<open>
  Modelled from the spec: the key-value store is an external collaborator, and
  section 4.3 gives its interface. \<open>get\<close> returns the stored count, or absent when the
  key was never set or has expired; \<open>put\<close> stores the value with an expiry
  \<open>ttl\<close> seconds later and overwrites any prior value. An entry is a value with the
  instant, in milliseconds, at which it expires; \<open>kv_at\<close> is what \<open>get\<close> sees at a
  given instant, \<open>kv_apply\<close> performs the writes that a request made, and \<open>fetch_at\<close>
  runs the handler against the store as it is at the time of the request.
\<close>

type_synonym timed_kv = "string \<rightharpoonup> (string \<times> int)"

definition kv_at :: "timed_kv \<Rightarrow> int \<Rightarrow> kv" where
  "kv_at ts now =
     (\<lambda>key. case ts key of
              None \<Rightarrow> None
            | Some (v, expiry) \<Rightarrow> if now < expiry then Some v else None)"

fun kv_apply :: "int \<Rightarrow> effect list \<Rightarrow> timed_kv \<Rightarrow> timed_kv" where
  "kv_apply now [] ts = ts"
| "kv_apply now (KV_put key v ttl # es) ts = kv_apply now es (ts(key \<mapsto> (v, now + 1000 * int ttl)))"
| "kv_apply now (KV_get key # es) ts = kv_apply now es ts"
| "kv_apply now (Read_text # es) ts = kv_apply now es ts"

definition fetch_at :: "env \<Rightarrow> timed_kv \<Rightarrow> int \<Rightarrow> request \<Rightarrow> (reply \<times> timed_kv) option" where
  "fetch_at env ts now request =
     (case fetch env (kv_at ts now) now request of
        None \<Rightarrow> None
      | Some r \<Rightarrow> Some (r, kv_apply now (effects r) ts))"

text \<open>What a later \<open>get\<close> of a key sees after one request has been served.\<close>

definition visible_after :: "env \<Rightarrow> timed_kv \<Rightarrow> int \<Rightarrow> request \<Rightarrow> int \<Rightarrow> string \<Rightarrow> string option" where
  "visible_after env ts now request later key =
     (case fetch_at env ts now request of
        None \<Rightarrow> None
      | Some (r, ts') \<Rightarrow> kv_at ts' later key)"

subsection \<open>Concrete scenarios\<close>

definition env_default :: env where
  "env_default =
     \<lparr> CORS_ALLOW_ORIGIN = None, HELIUS_API_KEY = ''KEY'', RATE_LIMIT_MAX_REQUESTS = None,
       RATE_LIMIT_TIME_WINDOW = None, WHITELISTED_IPS = None \<rparr>"



definition env_negative :: env where
  "env_negative = env_default \<lparr> RATE_LIMIT_MAX_REQUESTS := Some ''-1'' \<rparr>"

definition env_allow :: env where
  "env_allow = env_default \<lparr> WHITELISTED_IPS := Some ''198.51.100.1,203.0.113.7'' \<rparr>"

definition env_long_window :: env where
  "env_long_window = env_default \<lparr> RATE_LIMIT_TIME_WINDOW := Some ''120'' \<rparr>"

definition env_hosts :: env where
  "env_hosts = env_default \<lparr> CORS_ALLOW_ORIGIN := Some ''*.example.com,app.example.com'' \<rparr>"

definition env_origins :: env where
  "env_origins =
     env_default \<lparr> CORS_ALLOW_ORIGIN := Some ''https://*.example.com,https://app.example.com'' \<rparr>"

definition env_two_stars :: env where
  "env_two_stars =
     env_default \<lparr> CORS_ALLOW_ORIGIN := Some ''https://admin.example.com,https://*.*.example.com'' \<rparr>"

definition cors_any :: headers where
  "cors_any = corsBase(''Access-Control-Allow-Origin'' \<mapsto> ''*'')"

definition request_root :: request where
  "request_root =
     \<lparr> req_method = ''POST'', pathname = ''/'', search = ''?cluster=devnet'',
       searchParams = [(''cluster'', ''devnet'')],
       req_headers = [''CF-Connecting-IP'' \<mapsto> ''203.0.113.7''],
       req_body = Some ''{}'' \<rparr>"

definition request_api :: request where
  "request_api =
     \<lparr> req_method = ''GET'', pathname = ''/v0/transactions'', search = ''?cluster=devnet&limit=5'',
       searchParams = [(''cluster'', ''devnet''), (''limit'', ''5'')],
       req_headers = [''CF-Connecting-IP'' \<mapsto> ''203.0.113.7''],
       req_body = None \<rparr>"






definition request_app :: request where
  "request_app =
     request_root \<lparr> req_headers := [''CF-Connecting-IP'' \<mapsto> ''203.0.113.7'',
                                     ''Origin'' \<mapsto> ''https://app.example.com''] \<rparr>"

definition request_evil :: request where
  "request_evil =
     request_root \<lparr> req_headers := [''CF-Connecting-IP'' \<mapsto> ''203.0.113.7'',
                                     ''Origin'' \<mapsto> ''https://evil.com''] \<rparr>"

definition request_deep :: request where
  "request_deep =
     request_root \<lparr> req_headers := [''CF-Connecting-IP'' \<mapsto> ''203.0.113.7'',
                                     ''Origin'' \<mapsto> ''https://a.b.example.com''] \<rparr>"


section \<open>Properties\<close>

subsection \<open>Reading numbers\<close>

lemmas parse_defs = parseInt_def is_ws_def digit_in_def digit_of_def digits_value_def

lemma digit_in_10_not_sign: "digit_in 10 c \<Longrightarrow> c \<noteq> CHR ''-'' \<and> c \<noteq> CHR ''+''"
  by (auto simp: digit_in_def digit_of_def)



lemma parseInt_undefined: "parseInt ''undefined'' = NaN"
  by (simp add: parse_defs)


lemma parseInt_minus_one: "parseInt ''-1'' = Num (- 1)"
  by (simp add: parse_defs)

lemma parseInt_50: "parseInt ''50'' = Num 50"
  by (simp add: parse_defs)

lemma or_num_nonzero: "d \<noteq> 0 \<Longrightarrow> or_num x d \<noteq> 0"
  by (cases x) auto

lemma fetch_defined: "(fetch env ns now request = None) = (corsHeaders env request = None)"
  by (simp add: fetch_def split: option.splits)


subsection \<open>Decimal rendering and the window key\<close>

lemma digit_of_digit_char: "d < 10 \<Longrightarrow> digit_of (digit_char d) = Some d"
proof -
  assume "d < 10"
  then have "d \<in> {0, 1, 2, 3, 4, 5, 6, 7, 8, 9}" by auto
  then show ?thesis
    by (auto simp: digit_char_def digit_of_def)
qed

lemma digit_in_digit_char: "d < 10 \<Longrightarrow> digit_in 10 (digit_char d)"
  by (simp add: digit_in_def digit_of_digit_char)

lemma digits_value_snoc:
  "digits_value radix (ds @ [c]) = digits_value radix ds * radix + the (digit_of c)"
  by (simp add: digits_value_def)

lemma digits10_all_digits: "list_all (digit_in 10) (digits10 n)"
proof (induction n rule: digits10.induct)
  case (1 n)
  show ?case
  proof (cases "n < 10")
    case True
    then show ?thesis by (simp add: digit_in_digit_char)
  next
    case False
    then have "list_all (digit_in 10) (digits10 (n div 10))" using "1.IH" by simp
    moreover have "digit_in 10 (digit_char (n mod 10))" by (simp add: digit_in_digit_char)
    ultimately show ?thesis using False by (subst digits10.simps) simp
  qed
qed

lemma digits10_nonempty: "digits10 n \<noteq> []"
  by (subst digits10.simps) simp

lemma digits10_value: "digits_value 10 (digits10 n) = n"
proof (induction n rule: digits10.induct)
  case (1 n)
  show ?case
  proof (cases "n < 10")
    case True
    then show ?thesis by (simp add: digits_value_def digit_of_digit_char)
  next
    case False
    then have ih: "digits_value 10 (digits10 (n div 10)) = n div 10" using "1.IH" by simp
    have "digits_value 10 (digits10 (n div 10) @ [digit_char (n mod 10)]) = n div 10 * 10 + n mod 10"
      by (simp only: digits_value_snoc ih) (simp add: digit_of_digit_char)
    then show ?thesis using False by (subst digits10.simps) simp
  qed
qed

text \<open>What \<open>parseInt\<close> makes of a run of decimal digits, with or without a minus sign.\<close>

lemma parseInt_digits:
  assumes "ds \<noteq> []" and "list_all (digit_in 10) ds"
  shows "parseInt ds = Num (int (digits_value 10 ds))"
    and "parseInt (CHR ''-'' # ds) = Num (- int (digits_value 10 ds))"
proof -
  from assms obtain d r where ds: "ds = d # r" and d: "digit_in 10 d"
    by (cases ds) auto
  have notws: "\<not> is_ws d"
    using d by (auto simp: digit_in_def digit_of_def is_ws_def Let_def split: if_splits)
  have notsign: "d \<noteq> CHR ''-'' \<and> d \<noteq> CHR ''+''"
    using d by (rule digit_in_10_not_sign)
  have nothex: "take 2 ds \<noteq> ''0x'' \<and> take 2 ds \<noteq> ''0X''"
  proof (cases r)
    case Nil
    with ds show ?thesis by simp
  next
    case (Cons e r')
    with assms(2) ds have "digit_in 10 e" by simp
    then have "e \<noteq> CHR ''x'' \<and> e \<noteq> CHR ''X''"
      by (auto simp: digit_in_def digit_of_def)
    with ds Cons show ?thesis by simp
  qed
  have all: "takeWhile (digit_in 10) ds = ds"
    using assms(2) by (simp add: list_all_iff)
  have hexF: "(take 2 ds = ''0x'' \<or> take 2 ds = ''0X'') = False"
    using nothex by simp
  have dw: "dropWhile is_ws ds = ds"
    using ds notws by simp
  have c1: "(case ds of [] \<Rightarrow> False | c # x \<Rightarrow> c = CHR ''-'') = False"
    using ds notsign by simp
  have c2: "(case ds of [] \<Rightarrow> [] | c # r \<Rightarrow> if c = CHR ''-'' \<or> c = CHR ''+'' then r else ds) = ds"
    using ds notsign by simp
  show "parseInt ds = Num (int (digits_value 10 ds))"
    using assms(1)
    by (simp only: parseInt_def Let_def dw c1 c2) (simp only: nothex if_False simp_thms all, simp)
  have m1: "dropWhile is_ws (CHR ''-'' # ds) = CHR ''-'' # ds"
    by (simp add: is_ws_def)
  show "parseInt (CHR ''-'' # ds) = Num (- int (digits_value 10 ds))"
    using assms(1)
    by (simp only: parseInt_def Let_def m1 list.case simp_thms if_True)
      (simp only: nothex if_False simp_thms all, simp)
qed

text \<open>A count that the worker wrote is the count it reads back.\<close>

lemma parseInt_show_int: "parseInt (show_int i) = Num i"
proof (cases "i < 0")
  case True
  then show ?thesis
    using parseInt_digits(2) [OF digits10_nonempty digits10_all_digits, of "nat (- i)"]
    by (simp add: show_int_def digits10_value del: digits10.simps)
next
  case False
  then show ?thesis
    using parseInt_digits(1) [OF digits10_nonempty digits10_all_digits, of "nat i"]
    by (simp add: show_int_def digits10_value del: digits10.simps)
qed

lemma show_int_nonempty: "show_int i \<noteq> []"
  by (simp add: show_int_def digits10_nonempty del: digits10.simps)

lemma show_int_inject: "(show_int i = show_int j) = (i = j)"
proof
  assume "show_int i = show_int j"
  then have "parseInt (show_int i) = parseInt (show_int j)" by simp
  then show "i = j" by (simp add: parseInt_show_int)
qed simp

lemma currentTime_floor:
  "currentTime env now = \<lfloor>(real_of_int now / 1000) / real_of_int (rate_limit_window env)\<rfloor>"
proof -
  have "(real_of_int now / 1000) / real_of_int (rate_limit_window env)
        = real_of_int now / real_of_int (rate_limit_window env * 1000)"
    by simp
  then show ?thesis
    by (simp only: currentTime_def floor_divide_of_int_eq)
qed

text \<open>
  Claim C3. The window key is the client identity, a colon, and the decimal
  rendering of the floor of the time in seconds divided by the window length.
  For two requests of the same identity the keys are equal exactly when the two
  floors are equal.
\<close>

theorem window_key_floor:
  assumes "clientIdentifier request = clientIdentifier request'"
  shows "windowKey env now request
           = clientIdentifier request @ '':''
             @ show_int \<lfloor>(real_of_int now / 1000) / real_of_int (rate_limit_window env)\<rfloor>
         \<and> (windowKey env now request = windowKey env now' request'
              \<longleftrightarrow> \<lfloor>(real_of_int now / 1000) / real_of_int (rate_limit_window env)\<rfloor>
                   = \<lfloor>(real_of_int now' / 1000) / real_of_int (rate_limit_window env)\<rfloor>)"
proof -
  have key: "windowKey env now request
           = clientIdentifier request @ '':''
             @ show_int \<lfloor>(real_of_int now / 1000) / real_of_int (rate_limit_window env)\<rfloor>"
    by (simp only: windowKey_def currentTime_floor)
  have "(windowKey env now request = windowKey env now' request')
          = (currentTime env now = currentTime env now')"
    using assms by (simp add: windowKey_def show_int_inject)
  then have same: "windowKey env now request = windowKey env now' request'
              \<longleftrightarrow> \<lfloor>(real_of_int now / 1000) / real_of_int (rate_limit_window env)\<rfloor>
                   = \<lfloor>(real_of_int now' / 1000) / real_of_int (rate_limit_window env)\<rfloor>"
    by (simp only: currentTime_floor)
  from key same show ?thesis by blast
qed

theorem window_key_floor_witness:
  "windowKey env_default 1500 request_root = ''203.0.113.7:1''
   \<and> windowKey env_default 1500 request_root = windowKey env_default 1999 request_api
   \<and> windowKey env_default 1999 request_root \<noteq> windowKey env_default 2000 request_api"
proof -
  have id: "clientIdentifier request_root = clientIdentifier request_api"
    by (simp add: clientIdentifier_def request_root_def request_api_def)
  have w: "rate_limit_window env_default = 1"
    by (simp add: rate_limit_window_def env_default_def parseInt_undefined)
  have c: "clientIdentifier request_root = ''203.0.113.7''"
    by (simp add: clientIdentifier_def request_root_def)
  have one: "show_int 1 = ''1''"
    by (simp add: show_int_def digit_char_def)
  from window_key_floor [OF id, of env_default 1500 1999]
       window_key_floor [OF id, of env_default 1999 2000]
  show ?thesis
    by (auto simp add: w c one)
qed

subsection \<open>The rate limiter\<close>

lemma stored_count_absent: "ns key = None \<Longrightarrow> stored_count ns key = Num 0"
  by (simp add: stored_count_def)

lemma windowKey_root_0: "windowKey env_default 0 request_root = ''203.0.113.7:0''"
  by (simp add: windowKey_def clientIdentifier_def request_root_def currentTime_def
      show_int_def digit_char_def)

lemma max_default_50: "rate_limit_max env_default = 50"
  by (simp add: rate_limit_max_def env_default_def parseInt_undefined)

lemma fetch_limiter:
  assumes "corsHeaders env request = Some cors"
    and "req_method request \<noteq> ''OPTIONS''"
    and "clientIdentifier request \<notin> set (whitelistedIps env)"
    and "stored_count ns (windowKey env now request) = Num c"
  shows "fetch env ns now request = Some
           (if rate_limit_max env \<le> c then
              \<lparr> outcome = Respond \<lparr> status = 429, res_headers = cors,
                                     res_body = Some ''Rate limit exceeded'' \<rparr>,
                store = ns,
                effects = [KV_get (windowKey env now request)] \<rparr>
            else
              \<lparr> outcome = fst (handleRequest request env cors),
                store = ns(windowKey env now request \<mapsto> show_int (c + 1)),
                effects = [KV_get (windowKey env now request),
                           KV_put (windowKey env now request) (show_int (c + 1)) 60]
                          @ snd (handleRequest request env cors) \<rparr>)"
  using assms by (simp add: fetch_def rate_limited_def Let_def)

text \<open>
  Claim C1. For a request that is neither \<open>OPTIONS\<close> nor allow-listed, whose stored
  value reads as the count \<open>c\<close> (0 when absent): if \<open>c\<close> is at least the configured
  maximum, the answer is 429 \<open>Rate limit exceeded\<close> under the computed CORS headers,
  the store is unchanged and only read; otherwise \<open>c + 1\<close> is written under the same
  window key and the request is dispatched by \<open>handleRequest\<close>.
\<close>

theorem rate_limiter_step:
  assumes "corsHeaders env request = Some cors"
    and "req_method request \<noteq> ''OPTIONS''"
    and "clientIdentifier request \<notin> set (whitelistedIps env)"
    and "stored_count ns (windowKey env now request) = Num c"
  shows "fetch env ns now request = Some
           (if rate_limit_max env \<le> c then
              \<lparr> outcome = Respond \<lparr> status = 429, res_headers = cors,
                                     res_body = Some ''Rate limit exceeded'' \<rparr>,
                store = ns,
                effects = [KV_get (windowKey env now request)] \<rparr>
            else
              \<lparr> outcome = fst (handleRequest request env cors),
                store = ns(windowKey env now request \<mapsto> show_int (c + 1)),
                effects = [KV_get (windowKey env now request),
                           KV_put (windowKey env now request) (show_int (c + 1)) 60]
                          @ snd (handleRequest request env cors) \<rparr>)
         \<and> (ns (windowKey env now request) = None \<longrightarrow> c = 0)
         \<and> stored_count (ns(windowKey env now request \<mapsto> show_int (c + 1)))
               (windowKey env now request) = Num (c + 1)"
proof -
  have reread: "stored_count (ns(windowKey env now request \<mapsto> show_int (c + 1)))
               (windowKey env now request) = Num (c + 1)"
    by (simp add: stored_count_def show_int_nonempty parseInt_show_int)
  have absent: "ns (windowKey env now request) = None \<longrightarrow> c = 0"
    using assms(4) by (auto simp: stored_count_absent)
  note step = fetch_limiter [OF assms]
  from step absent reread show ?thesis by blast
qed

theorem rate_limiter_step_witness:
  "fetch env_default Map.empty 0 request_root = Some
     \<lparr> outcome = fst (handleRequest request_root env_default cors_any),
       store = [''203.0.113.7:0'' \<mapsto> ''1''],
       effects = [KV_get ''203.0.113.7:0'', KV_put ''203.0.113.7:0'' ''1'' 60]
                 @ snd (handleRequest request_root env_default cors_any) \<rparr>
   \<and> fetch env_default [''203.0.113.7:0'' \<mapsto> ''50''] 0 request_root = Some
     \<lparr> outcome = Respond \<lparr> status = 429, res_headers = cors_any,
                            res_body = Some ''Rate limit exceeded'' \<rparr>,
       store = [''203.0.113.7:0'' \<mapsto> ''50''],
       effects = [KV_get ''203.0.113.7:0''] \<rparr>"
proof -
  have c: "corsHeaders env_default request_root = Some cors_any"
    by (simp add: env_default_def corsHeaders_def cors_any_def)
  have m: "req_method request_root \<noteq> ''OPTIONS''"
    by (simp add: request_root_def)
  have w: "clientIdentifier request_root \<notin> set (whitelistedIps env_default)"
    by (simp add: whitelistedIps_def env_default_def)
  have s0: "stored_count Map.empty (windowKey env_default 0 request_root) = Num 0"
    by (simp add: stored_count_def)
  have s50: "stored_count [''203.0.113.7:0'' \<mapsto> ''50''] (windowKey env_default 0 request_root) = Num 50"
    by (simp add: stored_count_def windowKey_root_0 parseInt_50)
  have one: "show_int 1 = ''1''"
    by (simp add: show_int_def digit_char_def)
  from rate_limiter_step [OF c m w s0] rate_limiter_step [OF c m w s50]
  show ?thesis
    by (simp add: windowKey_root_0 max_default_50 one)
qed

text \<open>
  Claim C10. With the maximum set to \<open>-1\<close> the limit is \<open>-1\<close>, no default applies,
  and every request that is neither \<open>OPTIONS\<close> nor allow-listed is answered 429,
  also when the window's count is absent.
\<close>

theorem negative_limit_rejects:
  assumes "RATE_LIMIT_MAX_REQUESTS env = Some ''-1''"
    and "corsHeaders env request = Some cors"
    and "req_method request \<noteq> ''OPTIONS''"
    and "clientIdentifier request \<notin> set (whitelistedIps env)"
    and "ns (windowKey env now request) = None
         \<or> (\<exists>c. 0 \<le> c \<and> stored_count ns (windowKey env now request) = Num c)"
  shows "rate_limit_max env = - 1
         \<and> fetch env ns now request = Some
             \<lparr> outcome = Respond \<lparr> status = 429, res_headers = cors,
                                    res_body = Some ''Rate limit exceeded'' \<rparr>,
               store = ns,
               effects = [KV_get (windowKey env now request)] \<rparr>"
proof -
  have lim: "rate_limit_max env = - 1"
    using assms(1) by (simp add: rate_limit_max_def parseInt_minus_one)
  from assms(5) obtain c where c: "0 \<le> c" "stored_count ns (windowKey env now request) = Num c"
    using stored_count_absent by fastforce
  have "fetch env ns now request = Some
             \<lparr> outcome = Respond \<lparr> status = 429, res_headers = cors,
                                    res_body = Some ''Rate limit exceeded'' \<rparr>,
               store = ns,
               effects = [KV_get (windowKey env now request)] \<rparr>"
    using assms(2-4) c lim by (simp add: fetch_def rate_limited_def Let_def)
  with lim show ?thesis by blast
qed

theorem negative_limit_rejects_witness:
  "fetch env_negative Map.empty 0 request_root = Some
     \<lparr> outcome = Respond \<lparr> status = 429, res_headers = cors_any,
                            res_body = Some ''Rate limit exceeded'' \<rparr>,
       store = Map.empty,
       effects = [KV_get ''203.0.113.7:0''] \<rparr>
   \<and> rate_limit_max env_negative = - 1"
proof -
  have e: "RATE_LIMIT_MAX_REQUESTS env_negative = Some ''-1''"
    by (simp add: env_negative_def)
  have c: "corsHeaders env_negative request_root = Some cors_any"
    by (simp add: env_negative_def env_default_def corsHeaders_def cors_any_def)
  have m: "req_method request_root \<noteq> ''OPTIONS''"
    by (simp add: request_root_def)
  have w: "clientIdentifier request_root \<notin> set (whitelistedIps env_negative)"
    by (simp add: whitelistedIps_def env_negative_def env_default_def)
  have k: "windowKey env_negative 0 request_root = ''203.0.113.7:0''"
    by (simp add: windowKey_def clientIdentifier_def request_root_def currentTime_def
      show_int_def digit_char_def)
  have s: "Map.empty (windowKey env_negative 0 request_root) = None
         \<or> (\<exists>c. 0 \<le> c \<and> stored_count Map.empty (windowKey env_negative 0 request_root) = Num c)"
    by simp
  from negative_limit_rejects [OF e c m w s] show ?thesis
    by (simp add: k)
qed

subsection \<open>Origin patterns\<close>

lemmas regex_defs = regex_test_def domainPattern_def escape_dots_def replace_stars_def
  seg_class_def is_meta_def seg_char_def

lemma domainPattern_append: "domainPattern (a @ b) = domainPattern a @ domainPattern b"
  by (simp add: domainPattern_def escape_dots_def replace_stars_def)

lemma domainPattern_literal:
  "literal_char c \<Longrightarrow> domainPattern [c] = (if c = CHR ''.'' then [CHR 0x5C, CHR ''.''] else [c])"
  by (auto simp: literal_char_def is_meta_def domainPattern_def escape_dots_def replace_stars_def)

lemma domainPattern_star: "domainPattern ''*'' = seg_class"
  by (simp add: domainPattern_def escape_dots_def replace_stars_def)

lemma parse_atoms_dot:
  "parse_atoms (CHR 0x5C # CHR ''.'' # r) = map_option (Cons (Lit (CHR ''.''))) (parse_atoms r)"
  by simp

lemma parse_atoms_plain:
  "\<not> is_meta c \<Longrightarrow> parse_atoms (c # r) = map_option (Cons (Lit c)) (parse_atoms r)"
  by (auto simp: is_meta_def seg_class_def)

lemma parse_atoms_seg: "parse_atoms (seg_class @ r) = map_option (Cons Seg) (parse_atoms r)"
  by (simp add: seg_class_def)

lemma parse_literal:
  "list_all literal_char p \<Longrightarrow>
   parse_atoms (domainPattern p @ r) = map_option ((@) (map Lit p)) (parse_atoms r)"
proof (induction p)
  case Nil
  show ?case by (simp add: domainPattern_def escape_dots_def replace_stars_def option.map_ident)
next
  case (Cons c p)
  then have c: "literal_char c" and p: "list_all literal_char p" by simp_all
  have split: "domainPattern (c # p) = domainPattern [c] @ domainPattern p"
    using domainPattern_append [of "[c]" p] by simp
  have step: "parse_atoms (domainPattern [c] @ (domainPattern p @ r)) =
                map_option (Cons (Lit c)) (parse_atoms (domainPattern p @ r))"
  proof (cases "c = CHR ''.''")
    case True
    have "domainPattern [CHR ''.''] = [CHR 0x5C, CHR ''.'']"
      by (simp add: domainPattern_def escape_dots_def replace_stars_def)
    with True show ?thesis by (simp del: parse_atoms.simps add: parse_atoms_dot)
  next
    case False
    with c have nm: "\<not> is_meta c" by (simp add: literal_char_def)
    from c False have "domainPattern [c] = [c]" by (simp add: domainPattern_literal)
    with nm show ?thesis by (simp del: parse_atoms.simps add: parse_atoms_plain)
  qed
  have "parse_atoms (domainPattern (c # p) @ r) =
          map_option (Cons (Lit c)) (map_option ((@) (map Lit p)) (parse_atoms r))"
    using step Cons.IH [OF p] by (simp only: split append_assoc)
  then show ?case by (simp add: option.map_comp comp_def)
qed

lemma full_match_lits:
  "full_match (map Lit p @ as) s = (\<exists>t. s = p @ t \<and> full_match as t)"
proof (induction p arbitrary: s)
  case Nil
  show ?case by simp
next
  case (Cons c p)
  show ?case
  proof (cases s)
    case Nil
    then show ?thesis by simp
  next
    case (Cons d t)
    then show ?thesis using Cons.IH [of t] by auto
  qed
qed

lemma full_match_seg:
  "full_match (Seg # as) s =
     (\<exists>seg t. seg \<noteq> [] \<and> list_all seg_char seg \<and> s = seg @ t \<and> full_match as t)"
proof (induction s)
  case Nil
  show ?case by simp
next
  case (Cons d s)
  show ?case
  proof
    assume "full_match (Seg # as) (d # s)"
    then have d: "seg_char d" and alt: "full_match (Seg # as) s \<or> full_match as s" by simp_all
    from alt show "\<exists>seg t. seg \<noteq> [] \<and> list_all seg_char seg \<and> d # s = seg @ t \<and> full_match as t"
    proof
      assume "full_match (Seg # as) s"
      with Cons.IH obtain seg t where
        "seg \<noteq> []" "list_all seg_char seg" "s = seg @ t" "full_match as t" by blast
      with d have "d # seg \<noteq> [] \<and> list_all seg_char (d # seg) \<and> d # s = (d # seg) @ t
                   \<and> full_match as t" by simp
      then show ?thesis by blast
    next
      assume "full_match as s"
      with d have "[d] \<noteq> [] \<and> list_all seg_char [d] \<and> d # s = [d] @ s \<and> full_match as s"
        by simp
      then show ?thesis by blast
    qed
  next
    assume "\<exists>seg t. seg \<noteq> [] \<and> list_all seg_char seg \<and> d # s = seg @ t \<and> full_match as t"
    then obtain seg t where seg: "seg \<noteq> []" "list_all seg_char seg" "d # s = seg @ t"
      and t: "full_match as t" by blast
    from seg obtain seg' where s': "seg = d # seg'" "s = seg' @ t"
      by (cases seg) auto
    with seg have d: "seg_char d" and rest: "list_all seg_char seg'" by simp_all
    show "full_match (Seg # as) (d # s)"
    proof (cases "seg' = []")
      case True
      with s' t d show ?thesis by simp
    next
      case False
      with rest s' t Cons.IH have "full_match (Seg # as) s" by blast
      with d show ?thesis by simp
    qed
  qed
qed

lemma regex_test_literal:
  assumes "list_all literal_char p"
  shows "regex_test p origin = Some (origin = p)"
proof -
  have "parse_atoms (domainPattern p) = Some (map Lit p)"
    using parse_literal [OF assms, of "[]"] by simp
  moreover have "full_match (map Lit p) origin = (origin = p)"
    using full_match_lits [of p "[]" origin] by auto
  ultimately show ?thesis by (simp add: regex_test_def)
qed

lemma regex_test_wildcard:
  assumes "list_all literal_char pre" and "list_all literal_char suf"
  shows "regex_test (pre @ ''*'' @ suf) origin =
           Some (\<exists>seg. seg \<noteq> [] \<and> list_all seg_char seg \<and> origin = pre @ seg @ suf)"
proof -
  have suf: "parse_atoms (domainPattern suf) = Some (map Lit suf)"
    using parse_literal [OF assms(2), of "[]"] by simp
  have "domainPattern (pre @ ''*'' @ suf) = domainPattern pre @ seg_class @ domainPattern suf"
    by (simp only: domainPattern_append domainPattern_star)
  then have parsed: "parse_atoms (domainPattern (pre @ ''*'' @ suf)) = Some (map Lit pre @ Seg # map Lit suf)"
    using parse_literal [OF assms(1), of "seg_class @ domainPattern suf"] suf
    by (simp add: parse_atoms_seg)
  have "full_match (map Lit pre @ Seg # map Lit suf) origin =
          (\<exists>seg. seg \<noteq> [] \<and> list_all seg_char seg \<and> origin = pre @ seg @ suf)"
  proof -
    have tail: "\<And>t. full_match (map Lit suf) t = (t = suf)"
      using full_match_lits [of suf "[]"] by auto
    show ?thesis
      by (simp add: full_match_lits [of pre "Seg # map Lit suf"] full_match_seg tail) blast
  qed
  with parsed show ?thesis by (simp add: regex_test_def)
qed

text \<open>
  The pattern the worker compiles is the pattern read atom by atom, and matching
  it is matching in the sense of the specification, for any number of wildcards.
\<close>

lemma parse_pattern:
  "list_all pattern_char p \<Longrightarrow>
   parse_atoms (domainPattern p @ r) = map_option ((@) (map atom_of p)) (parse_atoms r)"
proof (induction p)
  case Nil
  show ?case by (simp add: domainPattern_def escape_dots_def replace_stars_def option.map_ident)
next
  case (Cons c p)
  then have c: "pattern_char c" and p: "list_all pattern_char p" by simp_all
  have split: "domainPattern (c # p) = domainPattern [c] @ domainPattern p"
    using domainPattern_append [of "[c]" p] by simp
  have step: "parse_atoms (domainPattern [c] @ (domainPattern p @ r)) =
                map_option (Cons (atom_of c)) (parse_atoms (domainPattern p @ r))"
  proof (cases "c = CHR ''*''")
    case True
    then show ?thesis
      by (simp del: parse_atoms.simps add: domainPattern_star parse_atoms_seg atom_of_def)
  next
    case False
    with c have lit: "literal_char c" by (simp add: pattern_char_def)
    have "parse_atoms (domainPattern [c] @ (domainPattern p @ r)) =
            map_option (Cons (Lit c)) (parse_atoms (domainPattern p @ r))"
    proof -
      have "(@) [Lit c] = Cons (Lit c)" by (rule ext) simp
      with parse_literal [of "[c]" "domainPattern p @ r"] lit show ?thesis
        by (simp del: parse_atoms.simps)
    qed
    with False show ?thesis by (simp only: atom_of_def if_False)
  qed
  have "parse_atoms (domainPattern (c # p) @ r) =
          map_option (Cons (atom_of c)) (map_option ((@) (map atom_of p)) (parse_atoms r))"
    using step Cons.IH [OF p] by (simp only: split append_assoc)
  then show ?case by (simp add: option.map_comp comp_def)
qed

lemma full_match_pattern: "full_match (map atom_of p) origin = wildcard_match p origin"
proof (induction p arbitrary: origin)
  case Nil
  show ?case by (auto simp: wildcard_match_def stars_def)
next
  case (Cons c p)
  show ?case
  proof (cases "c = CHR ''*''")
    case True
    have "full_match (map atom_of (c # p)) origin =
            (\<exists>seg t. seg \<noteq> [] \<and> list_all seg_char seg \<and> origin = seg @ t \<and> wildcard_match p t)"
      using True by (simp add: atom_of_def full_match_seg Cons.IH)
    also have "\<dots> = wildcard_match (c # p) origin"
    proof
      assume "\<exists>seg t. seg \<noteq> [] \<and> list_all seg_char seg \<and> origin = seg @ t \<and> wildcard_match p t"
      then obtain seg t segs where seg: "seg \<noteq> []" "list_all seg_char seg" "origin = seg @ t"
        and segs: "length segs = stars p" "\<forall>s \<in> set segs. s \<noteq> [] \<and> list_all seg_char s"
                  "t = fill p segs"
        by (auto simp: wildcard_match_def)
      have "length (seg # segs) = stars (c # p)
            \<and> (\<forall>s \<in> set (seg # segs). s \<noteq> [] \<and> list_all seg_char s)
            \<and> origin = fill (c # p) (seg # segs)"
        using True seg segs by (simp add: stars_def)
      then show "wildcard_match (c # p) origin"
        unfolding wildcard_match_def by blast
    next
      assume "wildcard_match (c # p) origin"
      then obtain segs where segs: "length segs = stars (c # p)"
        "\<forall>s \<in> set segs. s \<noteq> [] \<and> list_all seg_char s" "origin = fill (c # p) segs"
        unfolding wildcard_match_def by blast
      from segs(1) True obtain seg rest where sr: "segs = seg # rest" "length rest = stars p"
        by (cases segs) (auto simp: stars_def)
      with segs True have "seg \<noteq> [] \<and> list_all seg_char seg \<and> origin = seg @ fill p rest
                           \<and> wildcard_match p (fill p rest)"
        by (auto simp: wildcard_match_def)
      then show "\<exists>seg t. seg \<noteq> [] \<and> list_all seg_char seg \<and> origin = seg @ t \<and> wildcard_match p t"
        by blast
    qed
    finally show ?thesis .
  next
    case False
    have "full_match (map atom_of (c # p)) origin = (\<exists>t. origin = c # t \<and> wildcard_match p t)"
      using False by (cases origin) (auto simp: atom_of_def Cons.IH)
    also have "\<dots> = wildcard_match (c # p) origin"
      using False by (auto simp: wildcard_match_def stars_def)
    finally show ?thesis .
  qed
qed

lemma regex_test_pattern:
  assumes "list_all pattern_char p"
  shows "regex_test p origin = Some (wildcard_match p origin)"
proof -
  have "parse_atoms (domainPattern p) = Some (map atom_of p)"
    using parse_pattern [OF assms, of "[]"] by simp
  then show ?thesis by (simp add: regex_test_def full_match_pattern)
qed

text \<open>\<open>some\<close> over the configured list: one matching pattern is enough, and any will do.\<close>

lemma some_domain_patterns:
  "\<forall>p \<in> set ps. list_all pattern_char p \<Longrightarrow>
   some_domain ps origin = Some (\<exists>p \<in> set ps. wildcard_match p origin)"
  by (induction ps) (auto simp: regex_test_pattern split: bool.splits)

lemma corsHeaders_patterns:
  assumes "CORS_ALLOW_ORIGIN env = Some s" and "s \<noteq> []"
    and "\<forall>p \<in> set (split_comma s). list_all pattern_char p"
    and "req_headers request ''Origin'' = Some origin" and "origin \<noteq> []"
  shows "corsHeaders env request =
           Some (if \<exists>p \<in> set (split_comma s). wildcard_match p origin
                 then corsBase(''Access-Control-Allow-Origin'' \<mapsto> origin)
                 else corsBase)"
  using assms some_domain_patterns [OF assms(3), of origin]
  by (simp add: corsHeaders_def Let_def)

lemma literal_is_pattern: "list_all literal_char p \<Longrightarrow> list_all pattern_char p"
  by (simp add: list_all_iff pattern_char_def)

lemma cors_env_hosts_app: "corsHeaders env_hosts request_app = Some corsBase"
  by (simp add: corsHeaders_def env_hosts_def env_default_def request_app_def request_root_def
      regex_defs)

lemma cors_env_origins_app:
  "corsHeaders env_origins request_app
     = Some (corsBase(''Access-Control-Allow-Origin'' \<mapsto> ''https://app.example.com''))"
  by (simp add: corsHeaders_def env_origins_def env_default_def request_app_def request_root_def
      regex_defs)

lemma cors_env_origins_evil: "corsHeaders env_origins request_evil = Some corsBase"
  by (simp add: corsHeaders_def env_origins_def env_default_def request_evil_def request_root_def
      regex_defs)

lemma cors_env_two_stars_deep:
  "corsHeaders env_two_stars request_deep
     = Some (corsBase(''Access-Control-Allow-Origin'' \<mapsto> ''https://a.b.example.com''))"
  by (simp add: corsHeaders_def env_two_stars_def env_default_def request_deep_def request_root_def
      regex_defs)

lemma corsBase_no_origin: "corsBase ''Access-Control-Allow-Origin'' = None"
  by (simp add: corsBase_def)

text \<open>
  Claim C4, as stated, fails: the \<open>Origin\<close> header carries the scheme, so the
  origin \<open>https://app.example.com\<close> matches neither \<open>*.example.com\<close> nor
  \<open>app.example.com\<close>, and with these two patterns configured the response has
  no \<open>Access-Control-Allow-Origin\<close> header.
\<close>

theorem host_patterns_do_not_match_origin:
  "req_headers request_app ''Origin'' = Some ''https://app.example.com''
   \<and> regex_test ''*.example.com'' ''https://app.example.com'' = Some False
   \<and> regex_test ''app.example.com'' ''https://app.example.com'' = Some False
   \<and> CORS_ALLOW_ORIGIN env_hosts = Some ''*.example.com,app.example.com''
   \<and> corsHeaders env_hosts request_app = Some corsBase
   \<and> corsBase ''Access-Control-Allow-Origin'' = None"
proof -
  have a: "req_headers request_app ''Origin'' = Some ''https://app.example.com''"
    by (simp add: request_app_def)
  have b: "regex_test ''*.example.com'' ''https://app.example.com'' = Some False"
    by (simp add: regex_defs)
  have c: "regex_test ''app.example.com'' ''https://app.example.com'' = Some False"
    by (simp add: regex_defs)
  have d: "CORS_ALLOW_ORIGIN env_hosts = Some ''*.example.com,app.example.com''"
    by (simp add: env_hosts_def)
  from a b c d cors_env_hosts_app corsBase_no_origin show ?thesis by blast
qed

text \<open>
  Claim C4, amended. With a list of patterns configured, each made of literal
  characters and any number of \<open>*\<close>, and a non-empty \<open>Origin\<close> header, the origin is
  echoed back as \<open>Access-Control-Allow-Origin\<close> exactly when some pattern of the
  list matches it, and the header is absent otherwise. A pattern matches exactly
  the origins obtained from it by putting a non-empty run of letters, digits and
  hyphens in the place of each \<open>*\<close>: the match covers the whole origin and is
  case-sensitive. The origin \<open>https://app.example.com\<close> matches
  \<open>https://*.example.com\<close> and \<open>https://app.example.com\<close> and is echoed back;
  \<open>https://evil.com\<close> matches none of the four patterns and gets no header.
\<close>

theorem origin_matching:
  assumes "CORS_ALLOW_ORIGIN env = Some s" and "s \<noteq> []"
    and "\<forall>p \<in> set (split_comma s). list_all pattern_char p"
    and "req_headers request ''Origin'' = Some origin" and "origin \<noteq> []"
  shows "corsHeaders env request =
           Some (if \<exists>p \<in> set (split_comma s). wildcard_match p origin
                 then corsBase(''Access-Control-Allow-Origin'' \<mapsto> origin)
                 else corsBase)
         \<and> (\<forall>p. list_all pattern_char p \<longrightarrow> regex_test p origin = Some (wildcard_match p origin))
         \<and> (\<forall>pre suf. list_all literal_char pre \<and> list_all literal_char suf \<longrightarrow>
               regex_test pre origin = Some (origin = pre)
               \<and> regex_test (pre @ ''*'' @ suf) origin =
                   Some (\<exists>seg. seg \<noteq> [] \<and> list_all seg_char seg \<and> origin = pre @ seg @ suf))
         \<and> regex_test ''https://*.example.com'' ''https://app.example.com'' = Some True
         \<and> regex_test ''https://app.example.com'' ''https://app.example.com'' = Some True
         \<and> corsHeaders env_origins request_app
             = Some (corsBase(''Access-Control-Allow-Origin'' \<mapsto> ''https://app.example.com''))
         \<and> regex_test ''https://*.example.com'' ''https://evil.com'' = Some False
         \<and> regex_test ''https://app.example.com'' ''https://evil.com'' = Some False
         \<and> regex_test ''*.example.com'' ''https://evil.com'' = Some False
         \<and> regex_test ''app.example.com'' ''https://evil.com'' = Some False
         \<and> corsHeaders env_origins request_evil = Some corsBase
         \<and> corsBase ''Access-Control-Allow-Origin'' = None"
proof -
  have g1: "\<forall>p. list_all pattern_char p \<longrightarrow> regex_test p origin = Some (wildcard_match p origin)"
    by (simp add: regex_test_pattern)
  have g2: "\<forall>pre suf. list_all literal_char pre \<and> list_all literal_char suf \<longrightarrow>
               regex_test pre origin = Some (origin = pre)
               \<and> regex_test (pre @ ''*'' @ suf) origin =
                   Some (\<exists>seg. seg \<noteq> [] \<and> list_all seg_char seg \<and> origin = pre @ seg @ suf)"
    using regex_test_literal regex_test_wildcard by blast
  have a: "regex_test ''https://*.example.com'' ''https://app.example.com'' = Some True"
    by (simp add: regex_defs)
  have b: "regex_test ''https://app.example.com'' ''https://app.example.com'' = Some True"
    by (simp add: regex_defs)
  have c: "regex_test ''https://*.example.com'' ''https://evil.com'' = Some False"
    by (simp add: regex_defs)
  have d: "regex_test ''https://app.example.com'' ''https://evil.com'' = Some False"
    by (simp add: regex_defs)
  have e: "regex_test ''*.example.com'' ''https://evil.com'' = Some False"
    by (simp add: regex_defs)
  have f: "regex_test ''app.example.com'' ''https://evil.com'' = Some False"
    by (simp add: regex_defs)
  from corsHeaders_patterns [OF assms] g1 g2
    a b c d e f cors_env_origins_app cors_env_origins_evil corsBase_no_origin
  show ?thesis by blast
qed

theorem origin_matching_witness:
  "CORS_ALLOW_ORIGIN env_two_stars = Some ''https://admin.example.com,https://*.*.example.com''
   \<and> split_comma ''https://admin.example.com,https://*.*.example.com''
       = [''https://admin.example.com'', ''https://*.*.example.com'']
   \<and> req_headers request_deep ''Origin'' = Some ''https://a.b.example.com''
   \<and> \<not> wildcard_match ''https://admin.example.com'' ''https://a.b.example.com''
   \<and> wildcard_match ''https://*.*.example.com'' ''https://a.b.example.com''
   \<and> \<not> wildcard_match ''https://*.*.example.com'' ''https://b.example.com''
   \<and> corsHeaders env_two_stars request_deep
       = Some (corsBase(''Access-Control-Allow-Origin'' \<mapsto> ''https://a.b.example.com''))"
proof -
  have e: "CORS_ALLOW_ORIGIN env_two_stars = Some ''https://admin.example.com,https://*.*.example.com''"
    by (simp add: env_two_stars_def)
  have n: "''https://admin.example.com,https://*.*.example.com'' \<noteq> []" by simp
  have sp: "split_comma ''https://admin.example.com,https://*.*.example.com''
       = [''https://admin.example.com'', ''https://*.*.example.com'']"
    by simp
  have p1: "list_all pattern_char ''https://admin.example.com''"
    by (simp add: pattern_char_def literal_char_def is_meta_def)
  have p2: "list_all pattern_char ''https://*.*.example.com''"
    by (simp add: pattern_char_def literal_char_def is_meta_def)
  have pc: "\<forall>p \<in> set (split_comma ''https://admin.example.com,https://*.*.example.com'').
              list_all pattern_char p"
    using p1 p2 by (simp only: sp) simp
  have o: "req_headers request_deep ''Origin'' = Some ''https://a.b.example.com''"
    by (simp add: request_deep_def)
  have on: "''https://a.b.example.com'' \<noteq> []" by simp
  note main = origin_matching [OF e n pc o on]
  have r1: "regex_test ''https://admin.example.com'' ''https://a.b.example.com'' = Some False"
    by (simp add: regex_defs)
  have r2: "regex_test ''https://*.*.example.com'' ''https://a.b.example.com'' = Some True"
    by (simp add: regex_defs)
  have r3: "regex_test ''https://*.*.example.com'' ''https://b.example.com'' = Some False"
    by (simp add: regex_defs)
  have m1: "\<not> wildcard_match ''https://admin.example.com'' ''https://a.b.example.com''"
    using main p1 r1 by simp
  have m2: "wildcard_match ''https://*.*.example.com'' ''https://a.b.example.com''"
    using main p2 r2 by simp
  have m3: "\<not> wildcard_match ''https://*.*.example.com'' ''https://b.example.com''"
    using regex_test_pattern [OF p2, of "''https://b.example.com''"] r3 by simp
  have c: "corsHeaders env_two_stars request_deep
       = Some (corsBase(''Access-Control-Allow-Origin'' \<mapsto> ''https://a.b.example.com''))"
    using main m1 m2 by (simp only: sp) simp
  from e sp o m1 m2 m3 c show ?thesis by blast
qed

subsection \<open>The allow-list\<close>

lemma handleRequest_not_rejected: "\<not> rejected (fst (handleRequest request env cors))"
  by (simp add: handleRequest_def rejected_def Let_def split: attempt.splits)

lemma handleRequest_no_store: "e \<in> set (snd (handleRequest request env cors)) \<Longrightarrow> \<not> touches_store e"
  by (auto simp: handleRequest_def touches_store_def Let_def split: if_splits)

lemma fetch_allow_listed:
  assumes "clientIdentifier request \<in> set (whitelistedIps env)"
    and "corsHeaders env request = Some cors"
  shows "\<exists>r. fetch env ns now request = Some r \<and> store r = ns
             \<and> (\<forall>e \<in> set (effects r). \<not> touches_store e) \<and> \<not> rejected (outcome r)"
  using assms handleRequest_not_rejected [of request env cors]
    handleRequest_no_store [of _ request env cors]
  by (auto simp: fetch_def rejected_def)

text \<open>
  Claim C2. In a run of any number of requests from allow-listed clients, every
  reply leaves the store as it was, no effect reads or writes the store, and no
  reply is the rate-limit rejection. An allow-list that is not set is empty.
\<close>

theorem allow_list_bypass:
  assumes "\<forall>(now, request) \<in> set reqs.
             clientIdentifier request \<in> set (whitelistedIps env) \<and> corsHeaders env request \<noteq> None"
  shows "(\<exists>replies. serve env ns reqs = Some replies
            \<and> length replies = length reqs
            \<and> (\<forall>r \<in> set replies.
                  store r = ns \<and> (\<forall>e \<in> set (effects r). \<not> touches_store e)
                  \<and> \<not> rejected (outcome r)))
         \<and> (WHITELISTED_IPS env = None \<longrightarrow> whitelistedIps env = [])"
proof -
  have run: "\<exists>replies. serve env ns reqs = Some replies
            \<and> length replies = length reqs
            \<and> (\<forall>r \<in> set replies.
                  store r = ns \<and> (\<forall>e \<in> set (effects r). \<not> touches_store e)
                  \<and> \<not> rejected (outcome r))"
    using assms
  proof (induction reqs)
    case Nil
    then show ?case by simp
  next
    case (Cons a reqs)
    obtain now request where a: "a = (now, request)" by (cases a)
    from Cons.prems a have wl: "clientIdentifier request \<in> set (whitelistedIps env)"
      and "corsHeaders env request \<noteq> None" by auto
    then obtain cors where cors: "corsHeaders env request = Some cors" by auto
    from fetch_allow_listed [OF wl cors] obtain r where
      r: "fetch env ns now request = Some r" "store r = ns"
         "\<forall>e \<in> set (effects r). \<not> touches_store e" "\<not> rejected (outcome r)"
      by blast
    from Cons.IH Cons.prems obtain replies where
      reps: "serve env ns reqs = Some replies" "length replies = length reqs"
            "\<forall>r \<in> set replies. store r = ns \<and> (\<forall>e \<in> set (effects r). \<not> touches_store e)
                  \<and> \<not> rejected (outcome r)"
      by auto
    have "serve env ns (a # reqs) = Some (r # replies)"
      using a r reps by simp
    with r reps show ?case by auto
  qed
  have empty: "WHITELISTED_IPS env = None \<longrightarrow> whitelistedIps env = []"
    by (simp add: whitelistedIps_def)
  from run empty show ?thesis by blast
qed

theorem allow_list_bypass_witness:
  "\<exists>replies. serve env_allow Map.empty [(0, request_root), (1, request_root), (2, request_root)]
               = Some replies
     \<and> length replies = 3
     \<and> (\<forall>r \<in> set replies.
           store r = Map.empty \<and> (\<forall>e \<in> set (effects r). \<not> touches_store e)
           \<and> \<not> rejected (outcome r))"
proof -
  have wl: "clientIdentifier request_root \<in> set (whitelistedIps env_allow)"
    by (simp add: clientIdentifier_def request_root_def whitelistedIps_def env_allow_def
        env_default_def)
  have c: "corsHeaders env_allow request_root \<noteq> None"
    by (simp add: env_allow_def env_default_def corsHeaders_def)
  have h: "\<forall>(now, request) \<in> set [(0, request_root), (1, request_root), (2, request_root)].
             clientIdentifier request \<in> set (whitelistedIps env_allow)
             \<and> corsHeaders env_allow request \<noteq> None"
    using wl c by simp
  from allow_list_bypass [OF h, of Map.empty] show ?thesis
    by (simp del: serve.simps add: numeral_3_eq_3)
qed

subsection \<open>The host of the outbound URL\<close>














subsection \<open>Dispatch\<close>















subsection \<open>Configuration defaults\<close>





subsection \<open>Expiry of the counters\<close>

lemma handleRequest_effects: "snd (handleRequest request env cors) = [] \<or> snd (handleRequest request env cors) = [Read_text]"
  by (simp add: handleRequest_def Let_def)

lemma kv_apply_handleRequest: "kv_apply now (snd (handleRequest request env cors)) ts = ts"
  using handleRequest_effects [of request env cors] by auto

lemma fetch_writes:
  assumes "fetch env ns now request = Some r" and "KV_put key v ttl \<in> set (effects r)"
  shows "ttl = 60 \<and> key = windowKey env now request
         \<and> kv_apply now (effects r) ts = ts(key \<mapsto> (v, now + 60000))"
proof -
  from assms(1) obtain cors where c: "corsHeaders env request = Some cors"
    by (auto simp: fetch_def split: option.splits)
  have h: "KV_put key v ttl \<notin> set (snd (handleRequest request env cors))"
    using handleRequest_no_store [of "KV_put key v ttl" request env cors]
    by (auto simp: touches_store_def)
  from assms c h show ?thesis
    by (auto simp: fetch_def Let_def kv_apply_handleRequest split: if_splits)
qed

lemma fetch_no_write:
  assumes "fetch env ns now request = Some r" and "\<forall>key v ttl. KV_put key v ttl \<notin> set (effects r)"
  shows "kv_apply now (effects r) ts = ts \<and> store r = ns"
proof -
  from assms(1) obtain cors where c: "corsHeaders env request = Some cors"
    by (auto simp: fetch_def split: option.splits)
  have np: "KV_put (windowKey env now request)
              (toString (num_succ (stored_count ns (windowKey env now request)))) 60
            \<notin> set (effects r)"
    using assms(2) by blast
  from assms(1) c np show ?thesis
    by (auto simp: fetch_def Let_def kv_apply_handleRequest split: if_splits)
qed

text \<open>The timed store, read at the instant of the request, is the store the handler leaves.\<close>

lemma fetch_at_store:
  assumes "fetch_at env ts now request = Some (r, ts')"
  shows "kv_at ts' now = store r"
proof -
  from assms have f: "fetch env (kv_at ts now) now request = Some r"
    and t: "ts' = kv_apply now (effects r) ts"
    by (auto simp: fetch_at_def split: option.splits)
  show ?thesis
  proof (cases "\<exists>key v ttl. KV_put key v ttl \<in> set (effects r)")
    case True
    then obtain key v ttl where p: "KV_put key v ttl \<in> set (effects r)" by blast
    from fetch_writes [OF f p, of ts] t have ts': "ts' = ts(key \<mapsto> (v, now + 60000))" by simp
    from f p obtain cors where "corsHeaders env request = Some cors"
      by (auto simp: fetch_def split: option.splits)
    with f p have "store r = (kv_at ts now)(key \<mapsto> v)"
      using handleRequest_no_store [of "KV_put key v ttl" request env cors]
      by (auto simp: fetch_def Let_def touches_store_def split: if_splits)
    with ts' show ?thesis by (auto simp: kv_at_def fun_eq_iff)
  next
    case False
    with fetch_no_write [OF f, of ts] t show ?thesis by simp
  qed
qed

lemma same_window_close:
  fixes t t' d :: int
  assumes "d \<noteq> 0" and "t div d = t' div d" and "t \<le> t'"
  shows "t' - t < \<bar>d\<bar>"
proof -
  have e: "t' - t = t' mod d - t mod d"
  proof -
    have "t = d * (t div d) + t mod d" and "t' = d * (t' div d) + t' mod d" by simp_all
    with assms(2) show ?thesis by (metis add_diff_cancel_left)
  qed
  show ?thesis
  proof (cases "0 < d")
    case True
    then have "t' mod d < d" and "0 \<le> t mod d" by simp_all
    with e True show ?thesis by linarith
  next
    case False
    with assms(1) have neg: "d < 0" by simp
    then have "t' mod d \<le> 0" and "d < t mod d" by simp_all
    with e neg show ?thesis by linarith
  qed
qed

lemma window_within_ttl:
  assumes "\<bar>rate_limit_window env\<bar> \<le> 60" and "now \<le> t"
    and "currentTime env t = currentTime env now"
  shows "t < now + 60000"
proof -
  have nz: "rate_limit_window env * 1000 \<noteq> 0"
    by (simp add: rate_limit_window_def or_num_nonzero)
  from assms(3) have "now div (rate_limit_window env * 1000) = t div (rate_limit_window env * 1000)"
    by (simp add: currentTime_def)
  from same_window_close [OF nz this assms(2)]
  have "t - now < \<bar>rate_limit_window env * 1000\<bar>" .
  also have "\<dots> = \<bar>rate_limit_window env\<bar> * 1000" by (simp add: abs_mult)
  also have "\<dots> \<le> 60000" using assms(1) by simp
  finally show ?thesis by simp
qed

text \<open>
  Claim C8, as stated, fails for a window of 120 seconds: the counter is written
  with a time-to-live of 60 seconds, and 60 seconds after the write, still in the
  same window, the entry has expired.
\<close>

theorem ttl_shorter_than_window:
  "rate_limit_window env_long_window = 120
   \<and> map_option effects (fetch env_long_window Map.empty 0 request_root)
     = Some [KV_get ''203.0.113.7:0'', KV_put ''203.0.113.7:0'' ''1'' 60, Read_text]
   \<and> currentTime env_long_window 60000 = currentTime env_long_window 0
   \<and> visible_after env_long_window Map.empty 0 request_root 59999 ''203.0.113.7:0'' = Some ''1''
   \<and> visible_after env_long_window Map.empty 0 request_root 60000 ''203.0.113.7:0'' = None"
proof -
  have w: "rate_limit_window env_long_window = 120"
    by (simp add: env_long_window_def env_default_def rate_limit_window_def parse_defs)
  have f: "map_option effects (fetch env_long_window Map.empty 0 request_root)
     = Some [KV_get ''203.0.113.7:0'', KV_put ''203.0.113.7:0'' ''1'' 60, Read_text]"
    by (simp add: w fetch_def corsHeaders_def clientIdentifier_def whitelistedIps_def
        windowKey_def currentTime_def show_int_def digit_char_def stored_count_def
        rate_limit_max_def parseInt_undefined handleRequest_def
        env_long_window_def env_default_def request_root_def Let_def)
  have c: "currentTime env_long_window 60000 = currentTime env_long_window 0"
    by (simp add: currentTime_def w)
  have e: "kv_at Map.empty 0 = Map.empty"
    by (simp add: kv_at_def)
  from f obtain r where r: "fetch env_long_window Map.empty 0 request_root = Some r"
    and fx: "effects r = [KV_get ''203.0.113.7:0'', KV_put ''203.0.113.7:0'' ''1'' 60, Read_text]"
    by auto
  have v1: "visible_after env_long_window Map.empty 0 request_root 59999 ''203.0.113.7:0'' = Some ''1''"
    using r fx by (simp add: visible_after_def fetch_at_def e kv_at_def)
  have v2: "visible_after env_long_window Map.empty 0 request_root 60000 ''203.0.113.7:0'' = None"
    using r fx by (simp add: visible_after_def fetch_at_def e kv_at_def)
  from w f c v1 v2 show ?thesis by blast
qed

text \<open>
  Claim C8, amended. Every write of a counter uses the time-to-live 60, whatever
  the window, so the entry expires 60 seconds after the write. That is at least
  the window exactly when the window length is at most 60 in magnitude; then the
  entry is still there at every later instant of the window in which it was
  written. Whatever the window, the entry is gone from 60 seconds after the write.
\<close>

theorem fixed_ttl:
  assumes "fetch_at env ts now request = Some (r, ts')"
    and "KV_put key v ttl \<in> set (effects r)"
  shows "ttl = 60
         \<and> ts' key = Some (v, now + 60000)
         \<and> (\<bar>rate_limit_window env\<bar> \<le> 60 \<longleftrightarrow> \<bar>rate_limit_window env\<bar> \<le> int ttl)
         \<and> (\<forall>t. \<bar>rate_limit_window env\<bar> \<le> 60 \<and> now \<le> t
                  \<and> currentTime env t = currentTime env now \<longrightarrow> kv_at ts' t key = Some v)
         \<and> (\<forall>t. now + 60000 \<le> t \<longrightarrow> kv_at ts' t key = None)"
proof -
  from assms(1) have f: "fetch env (kv_at ts now) now request = Some r"
    and t: "ts' = kv_apply now (effects r) ts"
    by (auto simp: fetch_at_def split: option.splits)
  from fetch_writes [OF f assms(2), of ts] t
  have ttl: "ttl = 60" and entry: "ts' key = Some (v, now + 60000)" by simp_all
  have cover: "\<bar>rate_limit_window env\<bar> \<le> 60 \<longleftrightarrow> \<bar>rate_limit_window env\<bar> \<le> int ttl"
    using ttl by simp
  have current: "\<forall>t. \<bar>rate_limit_window env\<bar> \<le> 60 \<and> now \<le> t
                  \<and> currentTime env t = currentTime env now \<longrightarrow> kv_at ts' t key = Some v"
    using entry window_within_ttl [of env now] by (auto simp: kv_at_def)
  have reclaimed: "\<forall>t. now + 60000 \<le> t \<longrightarrow> kv_at ts' t key = None"
    using entry by (auto simp: kv_at_def)
  from ttl entry cover current reclaimed show ?thesis by blast
qed

theorem fixed_ttl_witness:
  "\<exists>r ts'. fetch_at env_default Map.empty 0 request_root = Some (r, ts')
       \<and> KV_put ''203.0.113.7:0'' ''1'' 60 \<in> set (effects r)
       \<and> \<bar>rate_limit_window env_default\<bar> \<le> 60
       \<and> currentTime env_default 999 = currentTime env_default 0
       \<and> kv_at ts' 999 ''203.0.113.7:0'' = Some ''1''
       \<and> kv_at ts' 60000 ''203.0.113.7:0'' = None"
proof -
  have w: "rate_limit_window env_default = 1"
    by (simp add: rate_limit_window_def env_default_def parseInt_undefined)
  have e: "kv_at Map.empty 0 = Map.empty"
    by (simp add: kv_at_def)
  have f: "map_option effects (fetch env_default Map.empty 0 request_root)
             = Some [KV_get ''203.0.113.7:0'', KV_put ''203.0.113.7:0'' ''1'' 60, Read_text]"
    by (simp add: w fetch_def corsHeaders_def clientIdentifier_def whitelistedIps_def
        windowKey_def currentTime_def show_int_def digit_char_def stored_count_def
        rate_limit_max_def parseInt_undefined handleRequest_def
        env_default_def request_root_def Let_def)
  then obtain r where r: "fetch env_default Map.empty 0 request_root = Some r"
    and fx: "effects r = [KV_get ''203.0.113.7:0'', KV_put ''203.0.113.7:0'' ''1'' 60, Read_text]"
    by auto
  define ts' where "ts' = kv_apply 0 (effects r) Map.empty"
  have fa: "fetch_at env_default Map.empty 0 request_root = Some (r, ts')"
    using r by (simp add: fetch_at_def e ts'_def)
  have p: "KV_put ''203.0.113.7:0'' ''1'' 60 \<in> set (effects r)"
    using fx by simp
  have a: "\<bar>rate_limit_window env_default\<bar> \<le> 60"
    by (simp add: w)
  have c: "currentTime env_default 999 = currentTime env_default 0"
    by (simp add: currentTime_def w)
  from fixed_ttl [OF fa p] a c
  have "kv_at ts' 999 ''203.0.113.7:0'' = Some ''1'' \<and> kv_at ts' 60000 ''203.0.113.7:0'' = None"
    by simp
  with fa p a c show ?thesis by blast
qed

end
